theory Spec2Isabelle
  imports Complex_Main
begin

section \<open>Data model\<close>

text \<open>
  The embedding follows the multi-account revision of \<^verbatim>\<open>src/index.mjs\<close> that keeps the
  accounts and the runtime state in two JSON files. JavaScript numbers that hold quota
  fractions are reals, instants (epoch seconds and epoch milliseconds) are integers, and
  a property that may be \<^verbatim>\<open>null\<close> or \<^verbatim>\<open>undefined\<close> is an \<open>option\<close>. A call to
  \<^verbatim>\<open>Date.now()\<close> is the explicit argument \<open>now\<close>; \<^verbatim>\<open>console.log\<close> output is left out.
  The JSON read from disk has the types of the records below: a utilization is a number, a
  reset is a number or \<^verbatim>\<open>null\<close>, a name is a string. Numbers are exact, without the
  rounding of IEEE doubles.
\<close>

record metric =
  utilization :: real
  reset :: "int option"
  status :: string

record account_usage =
  session5h :: "metric option"
  weekly7d :: "metric option"
  weekly7dSonnet :: "metric option"
  timestamp :: "string option"

text \<open>
  An account record as it is read from disk: the current field names and the legacy ones
  side by side. \<open>expiresAt\<close> is either a number or an ISO-8601 string.
\<close>

datatype expiry_field = ExpiryNumber int | ExpiryString string

record account =
  name :: string
  access :: "string option"
  refresh :: "string option"
  expires :: "int option"
  accessToken :: "string option"
  refreshToken :: "string option"
  expiresAt :: "expiry_field option"

datatype threshold_config =
  ThresholdNumber real
  | ThresholdObject "real option" "real option" "real option"

record config =
  threshold :: "threshold_config option"
  checkInterval :: "int option"

record thresholds =
  thr_session5h :: real
  thr_weekly7d :: real
  thr_weekly7dSonnet :: real

record state =
  currentAccount :: "string option"
  usage :: "(string \<times> account_usage) list option"
  requestCount :: "int option"
  lastPrimaryCheck :: "int option"
  config :: "config option"

section \<open>JavaScript numbers of the pressure score\<close>

text \<open>
  The pressure score divides by a configured threshold, and a JavaScript division by zero
  yields an infinity or \<^verbatim>\<open>NaN\<close> instead of failing. The score therefore lives in the reals
  extended by these three values. The real zero stands for the positive zero.
\<close>

datatype jsnum = Fin real | PosInf | NegInf | NaN

definition js_div :: "real \<Rightarrow> real \<Rightarrow> jsnum" where
  "js_div a b =
     (if b \<noteq> 0 then Fin (a / b)
      else if 0 < a then PosInf
      else if a < 0 then NegInf
      else NaN)"

fun js_lt :: "jsnum \<Rightarrow> jsnum \<Rightarrow> bool" where
  "js_lt NaN _ = False"
| "js_lt _ NaN = False"
| "js_lt (Fin a) (Fin b) = (a < b)"
| "js_lt (Fin _) PosInf = True"
| "js_lt (Fin _) NegInf = False"
| "js_lt PosInf _ = False"
| "js_lt NegInf NegInf = False"
| "js_lt NegInf _ = True"

fun js_max2 :: "jsnum \<Rightarrow> jsnum \<Rightarrow> jsnum" where
  "js_max2 NaN _ = NaN"
| "js_max2 _ NaN = NaN"
| "js_max2 a b = (if js_lt a b then b else a)"

definition js_max3 :: "jsnum \<Rightarrow> jsnum \<Rightarrow> jsnum \<Rightarrow> jsnum" where
  "js_max3 a b c = js_max2 (js_max2 a b) c"

section \<open>Selection engine\<close>

definition normalizeThresholds :: "threshold_config option \<Rightarrow> real \<Rightarrow> thresholds" where
  "normalizeThresholds v fallback =
     (case v of
        Some (ThresholdNumber x) \<Rightarrow>
          \<lparr>thr_session5h = x, thr_weekly7d = x, thr_weekly7dSonnet = x\<rparr>
      | Some (ThresholdObject a b c) \<Rightarrow>
          \<lparr>thr_session5h = (case a of Some x \<Rightarrow> x | None \<Rightarrow> fallback),
           thr_weekly7d = (case b of Some x \<Rightarrow> x | None \<Rightarrow> fallback),
           thr_weekly7dSonnet = (case c of Some x \<Rightarrow> x | None \<Rightarrow> fallback)\<rparr>
      | None \<Rightarrow>
          \<lparr>thr_session5h = fallback, thr_weekly7d = fallback,
           thr_weekly7dSonnet = fallback\<rparr>)"

text \<open>\<^verbatim>\<open>m?.utilization || 0\<close>: a missing metric counts as utilization 0.\<close>

definition util_of :: "metric option \<Rightarrow> real" where
  "util_of m = (case m of None \<Rightarrow> 0 | Some x \<Rightarrow> utilization x)"

definition isOverThreshold :: "thresholds \<Rightarrow> account_usage option \<Rightarrow> bool" where
  "isOverThreshold th u =
     (case u of
        None \<Rightarrow> False
      | Some x \<Rightarrow>
          util_of (session5h x) > thr_session5h th \<or>
          util_of (weekly7d x) > thr_weekly7d th \<or>
          util_of (weekly7dSonnet x) > thr_weekly7dSonnet th)"

definition getUtilizationScore :: "thresholds \<Rightarrow> account_usage option \<Rightarrow> jsnum" where
  "getUtilizationScore th u =
     (case u of
        None \<Rightarrow> Fin 0
      | Some x \<Rightarrow>
          js_max3 (js_div (util_of (session5h x)) (thr_session5h th))
                  (js_div (util_of (weekly7d x)) (thr_weekly7d th))
                  (js_div (util_of (weekly7dSonnet x)) (thr_weekly7dSonnet th)))"

text \<open>\<^verbatim>\<open>state.usage?.[name]\<close>\<close>

definition usage_of :: "state \<Rightarrow> string \<Rightarrow> account_usage option" where
  "usage_of st n = (case usage st of None \<Rightarrow> None | Some m \<Rightarrow> map_of m n)"

text \<open>The array \<^verbatim>\<open>resets\<close> of \<^verbatim>\<open>getEarliestResetTime\<close>: the resets that are not \<^verbatim>\<open>null\<close>.\<close>

definition resets :: "account_usage \<Rightarrow> int list" where
  "resets u =
     List.map_filter (\<lambda>m. case m of None \<Rightarrow> None | Some y \<Rightarrow> reset y)
       [session5h u, weekly7d u, weekly7dSonnet u]"

definition getEarliestResetTime :: "account_usage option \<Rightarrow> int option" where
  "getEarliestResetTime u =
     (case u of
        None \<Rightarrow> None
      | Some x \<Rightarrow>
          (case resets x of
             [] \<Rightarrow> None
           | r # rs \<Rightarrow> Some (fold min rs r * 1000)))"

definition thresholds_of :: "state \<Rightarrow> thresholds" where
  "thresholds_of st =
     normalizeThresholds (case config st of None \<Rightarrow> None | Some c \<Rightarrow> threshold c) 0.70"

definition check_interval_of :: "state \<Rightarrow> int" where
  "check_interval_of st =
     (case config st of
        None \<Rightarrow> 3600000
      | Some c \<Rightarrow> (case checkInterval c of None \<Rightarrow> 3600000 | Some i \<Rightarrow> i))"

text \<open>The all-fallbacks-over-threshold choice: a left fold that starts at the first fallback.\<close>

definition pick_best :: "thresholds \<Rightarrow> state \<Rightarrow> account \<Rightarrow> account list \<Rightarrow> account" where
  "pick_best th st f0 fallbacks =
     foldl (\<lambda>lowest f.
              if js_lt (getUtilizationScore th (usage_of st (name f)))
                       (getUtilizationScore th (usage_of st (name lowest)))
              then f else lowest)
       f0 fallbacks"

text \<open>The two recovery triggers of the fallback branch.\<close>

definition resetPassed :: "int \<Rightarrow> state \<Rightarrow> account_usage option \<Rightarrow> bool" where
  "resetPassed now st primaryUsage =
     (let lastCheck = (case lastPrimaryCheck st of None \<Rightarrow> 0 | Some t \<Rightarrow> t)
      in case getEarliestResetTime primaryUsage of
           None \<Rightarrow> False
         | Some e \<Rightarrow> e \<noteq> 0 \<and> e \<le> now \<and> e > lastCheck)"

definition intervalPassed :: "int \<Rightarrow> state \<Rightarrow> bool" where
  "intervalPassed now st =
     (let lastCheck = (case lastPrimaryCheck st of None \<Rightarrow> 0 | Some t \<Rightarrow> t)
      in now - lastCheck > check_interval_of st)"

text \<open>
  \<^verbatim>\<open>selectThresholdAccount(accounts, state)\<close> returns the chosen account (\<^verbatim>\<open>null\<close> for an
  empty list) and writes \<^verbatim>\<open>state.lastPrimaryCheck\<close> in place; the model returns the state
  after the call next to the account.
\<close>

definition selectThresholdAccount ::
  "int \<Rightarrow> account list \<Rightarrow> state \<Rightarrow> account option \<times> state" where
  "selectThresholdAccount now accounts st =
     (let th = thresholds_of st in
      case accounts of
        [] \<Rightarrow> (None, st)
      | [a] \<Rightarrow> (Some a, st)
      | primary # f0 # rest \<Rightarrow>
          (let fallbacks = f0 # rest in
           if currentAccount st = None \<or> currentAccount st = Some [] then (Some primary, st)
           else
             let primaryUsage = usage_of st (name primary) in
             if currentAccount st = Some (name primary) then
               (if isOverThreshold th primaryUsage then
                  (case find (\<lambda>f. \<not> isOverThreshold th (usage_of st (name f))) fallbacks of
                     Some f \<Rightarrow> (Some f, st)
                   | None \<Rightarrow> (Some (pick_best th st f0 fallbacks), st))
                else (Some primary, st))
             else
               (let fire = (resetPassed now st primaryUsage \<or> intervalPassed now st);
                    st' = (if fire then st\<lparr>lastPrimaryCheck := Some now\<rparr> else st)
                in if fire \<and> \<not> isOverThreshold th primaryUsage then (Some primary, st')
                   else
                     (case find (\<lambda>a. Some (name a) = currentAccount st) accounts of
                        Some a \<Rightarrow> (Some a, st')
                      | None \<Rightarrow> (Some f0, st')))))"

text \<open>
  The pressure as the specification words it: the largest of the three quotients of a
  metric's utilization by that metric's threshold, over the reals.
\<close>

definition spec_pressure :: "thresholds \<Rightarrow> account_usage \<Rightarrow> real" where
  "spec_pressure th u =
     max (max (util_of (session5h u) / thr_session5h th)
              (util_of (weekly7d u) / thr_weekly7d th))
         (util_of (weekly7dSonnet u) / thr_weekly7dSonnet th)"

section \<open>Account store: normalisation and merge of legacy sources\<close>

text \<open>JavaScript truthiness of a property that holds a string or is absent.\<close>

definition truthy :: "string option \<Rightarrow> bool" where
  "truthy s = (case s of None \<Rightarrow> False | Some x \<Rightarrow> x \<noteq> [])"

text \<open>
  \<^verbatim>\<open>Date.parse\<close> is the parameter \<open>dateParse\<close>; \<open>None\<close> stands for a result that is
  not a finite number.
\<close>

definition coalesce_access :: "account \<Rightarrow> account" where
  "coalesce_access a =
     (if \<not> truthy (access a) \<and> accessToken a \<noteq> None then a\<lparr>access := accessToken a\<rparr> else a)"

definition coalesce_refresh :: "account \<Rightarrow> account" where
  "coalesce_refresh a =
     (if \<not> truthy (refresh a) \<and> refreshToken a \<noteq> None then a\<lparr>refresh := refreshToken a\<rparr>
      else a)"

definition coalesce_expires :: "(string \<Rightarrow> int option) \<Rightarrow> account \<Rightarrow> account" where
  "coalesce_expires dateParse a =
     (case expires a of
        Some _ \<Rightarrow> a
      | None \<Rightarrow>
          (case expiresAt a of
             Some (ExpiryNumber n) \<Rightarrow> a\<lparr>expires := Some n\<rparr>
           | Some (ExpiryString t) \<Rightarrow>
               (case dateParse t of Some p \<Rightarrow> a\<lparr>expires := Some p\<rparr> | None \<Rightarrow> a)
           | None \<Rightarrow> a))"

text \<open>The three \<^verbatim>\<open>if\<close> statements of \<^verbatim>\<open>normalizeAccountFields\<close>, in source order.\<close>

definition normalizeAccountFields :: "(string \<Rightarrow> int option) \<Rightarrow> account \<Rightarrow> account" where
  "normalizeAccountFields dateParse a =
     coalesce_expires dateParse (coalesce_refresh (coalesce_access a))"

definition getAccountExpiry :: "(string \<Rightarrow> int option) \<Rightarrow> account \<Rightarrow> int" where
  "getAccountExpiry dateParse a =
     (case expires (normalizeAccountFields dateParse a) of Some e \<Rightarrow> e | None \<Rightarrow> 0)"

definition hasRefreshToken :: "account \<Rightarrow> bool" where
  "hasRefreshToken a = truthy (refresh a)"

definition pickPreferredAccount ::
  "(string \<Rightarrow> int option) \<Rightarrow> account option \<Rightarrow> account \<Rightarrow> account" where
  "pickPreferredAccount dateParse current candidate =
     (case current of
        None \<Rightarrow> candidate
      | Some cur \<Rightarrow>
          if hasRefreshToken candidate \<and> \<not> hasRefreshToken cur then candidate
          else if getAccountExpiry dateParse candidate > getAccountExpiry dateParse cur
               then candidate
          else cur)"

text \<open>
  A JavaScript \<^verbatim>\<open>Map\<close> or plain object keyed by strings, as an association list in
  insertion order: writing an existing key keeps its position, a new key goes last.
\<close>

fun map_set :: "'k \<Rightarrow> 'v \<Rightarrow> ('k \<times> 'v) list \<Rightarrow> ('k \<times> 'v) list" where
  "map_set k v [] = [(k, v)]"
| "map_set k v (p # ps) = (if fst p = k then (k, v) # ps else p # map_set k v ps)"

record auth_source =
  src_accounts :: "account list option"
  src_requestCount :: "int option"

record multi_auth =
  merged_accounts :: "account list"
  merged_requestCount :: int

text \<open>The body of the inner loop over one source's accounts.\<close>

definition merge_account ::
  "(string \<Rightarrow> int option) \<Rightarrow> (string \<times> account) list \<Rightarrow> account \<Rightarrow> (string \<times> account) list" where
  "merge_account dateParse mergedByName rawAccount =
     (let a = normalizeAccountFields dateParse rawAccount
      in if name a = [] then mergedByName
         else map_set (name a) (pickPreferredAccount dateParse (map_of mergedByName (name a)) a)
                mergedByName)"

definition merge_source ::
  "(string \<Rightarrow> int option) \<Rightarrow> (string \<times> account) list \<times> int \<Rightarrow> auth_source \<Rightarrow>
   (string \<times> account) list \<times> int" where
  "merge_source dateParse acc src =
     (case src_accounts src of
        None \<Rightarrow> acc
      | Some accs \<Rightarrow>
          (foldl (merge_account dateParse) (fst acc) accs,
           (case src_requestCount src of
              Some n \<Rightarrow> if n > snd acc then n else snd acc
            | None \<Rightarrow> snd acc)))"

definition mergeMultiAuthSources ::
  "(string \<Rightarrow> int option) \<Rightarrow> auth_source list \<Rightarrow> multi_auth option" where
  "mergeMultiAuthSources dateParse sourceDataList =
     (let r = foldl (merge_source dateParse) ([], 0) sourceDataList
      in if fst r = [] then None
         else Some \<lparr>merged_accounts = map snd (fst r), merged_requestCount = snd r\<rparr>)"

text \<open>The invariant of \<^verbatim>\<open>mergedByName\<close>: keys are distinct, and each key is the non-empty
  name of its record.\<close>

definition keyed_by_name :: "(string \<times> account) list \<Rightarrow> bool" where
  "keyed_by_name m \<longleftrightarrow>
     distinct (map fst m) \<and> (\<forall>(k, v)\<in>set m. name v = k \<and> k \<noteq> [])"

section \<open>Usage tracker\<close>

definition EMPTY_USAGE :: account_usage where
  "EMPTY_USAGE =
     \<lparr>session5h = Some \<lparr>utilization = 0, reset = None, status = ''allowed''\<rparr>,
      weekly7d = Some \<lparr>utilization = 0, reset = None, status = ''allowed''\<rparr>,
      weekly7dSonnet = Some \<lparr>utilization = 0, reset = None, status = ''allowed''\<rparr>,
      timestamp = None\<rparr>"

text \<open>
  The test \<^verbatim>\<open>metric?.reset && metric.reset * 1000 < now && metric.utilization > 0\<close>
  of \<^verbatim>\<open>resolveStaleMetrics\<close>: a reset of 0 is falsy, like an absent one.
\<close>

definition is_stale :: "int \<Rightarrow> metric \<Rightarrow> bool" where
  "is_stale now m =
     ((case reset m of None \<Rightarrow> False | Some r \<Rightarrow> r \<noteq> 0 \<and> r * 1000 < now) \<and>
      utilization m > 0)"

definition resolve_metric :: "int \<Rightarrow> metric option \<Rightarrow> metric option" where
  "resolve_metric now m =
     (case m of
        None \<Rightarrow> None
      | Some x \<Rightarrow>
          if is_stale now x then Some (x\<lparr>utilization := 0, status := ''allowed''\<rparr>)
          else Some x)"

definition metric_stale :: "int \<Rightarrow> metric option \<Rightarrow> bool" where
  "metric_stale now m = (case m of None \<Rightarrow> False | Some x \<Rightarrow> is_stale now x)"

definition resolve_usage :: "int \<Rightarrow> account_usage \<Rightarrow> account_usage" where
  "resolve_usage now u =
     u\<lparr>session5h := resolve_metric now (session5h u),
       weekly7d := resolve_metric now (weekly7d u),
       weekly7dSonnet := resolve_metric now (weekly7dSonnet u)\<rparr>"

definition usage_stale :: "int \<Rightarrow> account_usage \<Rightarrow> bool" where
  "usage_stale now u =
     (metric_stale now (session5h u) \<or> metric_stale now (weekly7d u) \<or>
      metric_stale now (weekly7dSonnet u))"

definition resolveStaleMetrics :: "int \<Rightarrow> state \<Rightarrow> bool \<times> state" where
  "resolveStaleMetrics now st =
     (case usage st of
        None \<Rightarrow> (False, st)
      | Some u \<Rightarrow>
          (list_ex (\<lambda>(n, au). usage_stale now au) u,
           st\<lparr>usage := Some (map (\<lambda>(n, au). (n, resolve_usage now au)) u)\<rparr>))"

text \<open>
  The three rate-limit headers of one metric, each a string or absent. \<^verbatim>\<open>parseFloat\<close>
  and \<^verbatim>\<open>parseInt\<close> are the parameters \<open>parseFloat\<close> and \<open>parseInt\<close>, with \<open>None\<close> for
  \<^verbatim>\<open>NaN\<close>.
\<close>

record metric_headers =
  hdr_utilization :: "string option"
  hdr_reset :: "string option"
  hdr_status :: "string option"

text \<open>\<^verbatim>\<open>rawReset !== null ? (parseInt(rawReset) || null) : null\<close>\<close>

definition newReset :: "(string \<Rightarrow> int option) \<Rightarrow> metric_headers \<Rightarrow> int option" where
  "newReset parseInt h =
     (case hdr_reset h of
        None \<Rightarrow> None
      | Some t \<Rightarrow>
          (case parseInt t of
             None \<Rightarrow> None
           | Some n \<Rightarrow> if n = 0 then None else Some n))"

definition updateMetric ::
  "(string \<Rightarrow> real option) \<Rightarrow> (string \<Rightarrow> int option) \<Rightarrow> metric option \<Rightarrow> metric_headers \<Rightarrow>
   metric option" where
  "updateMetric parseFloat parseInt prev h =
     (if hdr_utilization h = None \<and> hdr_reset h = None \<and> hdr_status h = None then prev
      else if newReset parseInt h = None \<and> prev \<noteq> None then prev
      else
        Some \<lparr>utilization =
                (case hdr_utilization h of
                   Some t \<Rightarrow> (case parseFloat t of Some x \<Rightarrow> x | None \<Rightarrow> 0)
                 | None \<Rightarrow> (case prev of Some p \<Rightarrow> utilization p | None \<Rightarrow> 0)),
              reset =
                (case newReset parseInt h of
                   Some n \<Rightarrow> Some n
                 | None \<Rightarrow> (case prev of Some p \<Rightarrow> reset p | None \<Rightarrow> None)),
              status =
                (case hdr_status h of
                   Some t \<Rightarrow> t
                 | None \<Rightarrow> (case prev of Some p \<Rightarrow> status p | None \<Rightarrow> ''unknown''))\<rparr>)"

record observation =
  obs_5h :: metric_headers
  obs_7d :: metric_headers
  obs_7d_sonnet :: metric_headers

text \<open>
  The usage update at the end of a call: \<open>stamp\<close> is \<^verbatim>\<open>new Date().toISOString()\<close>. A
  prior usage that is missing reads as an object without metrics
  (\<^verbatim>\<open>state.usage[account.name] || {}\<close>).
\<close>

definition prior_metric ::
  "(account_usage \<Rightarrow> metric option) \<Rightarrow> account_usage option \<Rightarrow> metric option" where
  "prior_metric sel prev = (case prev of None \<Rightarrow> None | Some p \<Rightarrow> sel p)"

definition updateUsage ::
  "(string \<Rightarrow> real option) \<Rightarrow> (string \<Rightarrow> int option) \<Rightarrow> string \<Rightarrow> account_usage option \<Rightarrow>
   observation \<Rightarrow> account_usage" where
  "updateUsage parseFloat parseInt stamp prev obs =
     \<lparr>session5h = updateMetric parseFloat parseInt (prior_metric session5h prev) (obs_5h obs),
      weekly7d = updateMetric parseFloat parseInt (prior_metric weekly7d prev) (obs_7d obs),
      weekly7dSonnet =
        updateMetric parseFloat parseInt (prior_metric weekly7dSonnet prev) (obs_7d_sonnet obs),
      timestamp = Some stamp\<rparr>"

definition updateFromObservation ::
  "(string \<Rightarrow> real option) \<Rightarrow> (string \<Rightarrow> int option) \<Rightarrow> string \<Rightarrow> state \<Rightarrow> string \<Rightarrow>
   observation \<Rightarrow> state" where
  "updateFromObservation parseFloat parseInt stamp st accountName obs =
     (let u = (case usage st of None \<Rightarrow> [] | Some m \<Rightarrow> m)
      in st\<lparr>usage :=
              Some (map_set accountName
                      (updateUsage parseFloat parseInt stamp (map_of u accountName) obs) u)\<rparr>)"

text \<open>
  The three metrics of an account, and each with the headers that carry it
  (\<^verbatim>\<open>anthropic-ratelimit-unified-5h\<close>, \<^verbatim>\<open>-7d\<close> and \<^verbatim>\<open>-7d_sonnet\<close>).
\<close>

definition metrics :: "(account_usage \<Rightarrow> metric option) list" where
  "metrics = [session5h, weekly7d, weekly7dSonnet]"

definition metric_channels ::
  "((account_usage \<Rightarrow> metric option) \<times> (observation \<Rightarrow> metric_headers)) list" where
  "metric_channels = [(session5h, obs_5h), (weekly7d, obs_7d), (weekly7dSonnet, obs_7d_sonnet)]"

section \<open>Persistence primitive\<close>

text \<open>
  The file system as far as the two primitives see it: a partial map from a path to the
  content of the file at that path. \<^verbatim>\<open>JSON.parse\<close> is the parameter \<open>parse\<close>, with \<open>None\<close>
  for a content that does not parse; \<^verbatim>\<open>JSON.stringify(data, null, 2)\<close> is the string
  \<open>json\<close> handed to the writer.
\<close>

type_synonym files = "string \<Rightarrow> string option"

definition read_parsed :: "(string \<Rightarrow> 'v option) \<Rightarrow> files \<Rightarrow> string \<Rightarrow> 'v option" where
  "read_parsed parse fs path = (case fs path of None \<Rightarrow> None | Some c \<Rightarrow> parse c)"

definition safeReadJSON :: "(string \<Rightarrow> 'v option) \<Rightarrow> files \<Rightarrow> string \<Rightarrow> 'v \<Rightarrow> 'v" where
  "safeReadJSON parse fs filePath fallback =
     (case read_parsed parse fs filePath of
        Some d \<Rightarrow> d
      | None \<Rightarrow>
          (case read_parsed parse fs (filePath @ ''.bak'') of
             Some d \<Rightarrow> d
           | None \<Rightarrow> fallback))"

text \<open>
  The statements of \<^verbatim>\<open>safeWriteJSON\<close> that touch the file system, in source order.
  \<open>MkDir\<close> creates directories only and leaves every file as it is.
\<close>

datatype fs_op =
  MkDir string
  | CopyFile string string
  | WriteFile string string
  | Rename string string

fun run_op :: "fs_op \<Rightarrow> files \<Rightarrow> files" where
  "run_op (MkDir d) fs = fs"
| "run_op (CopyFile src dst) fs = (case fs src of None \<Rightarrow> fs | Some c \<Rightarrow> fs(dst \<mapsto> c))"
| "run_op (WriteFile p c) fs = fs(p \<mapsto> c)"
| "run_op (Rename src dst) fs =
     (case fs src of None \<Rightarrow> fs | Some c \<Rightarrow> (fs(src := None))(dst \<mapsto> c))"

text \<open>
  An operation that is cut short, by an exception or by the end of the process, after it
  put \<open>n\<close> characters at its destination. A copy and a write leave a prefix there; a
  rename is atomic and leaves nothing.
\<close>

fun cut_op :: "nat \<Rightarrow> fs_op \<Rightarrow> files \<Rightarrow> files" where
  "cut_op n (MkDir d) fs = fs"
| "cut_op n (CopyFile src dst) fs =
     (case fs src of None \<Rightarrow> fs | Some c \<Rightarrow> fs(dst \<mapsto> take n c))"
| "cut_op n (WriteFile p c) fs = fs(p \<mapsto> take n c)"
| "cut_op n (Rename src dst) fs = fs"

definition safeWriteJSON_ops :: "files \<Rightarrow> string \<Rightarrow> string \<Rightarrow> fs_op list" where
  "safeWriteJSON_ops fs filePath json =
     [MkDir filePath] @
     (if fs filePath \<noteq> None then [CopyFile filePath (filePath @ ''.bak'')] else []) @
     [WriteFile (filePath @ ''.tmp'') json, Rename (filePath @ ''.tmp'') filePath]"

definition run_ops :: "fs_op list \<Rightarrow> files \<Rightarrow> files" where
  "run_ops ops fs = fold run_op ops fs"

definition safeWriteJSON :: "files \<Rightarrow> string \<Rightarrow> string \<Rightarrow> files" where
  "safeWriteJSON fs filePath json = run_ops (safeWriteJSON_ops fs filePath json) fs"

text \<open>
  A run of \<^verbatim>\<open>safeWriteJSON\<close> that completes its first \<open>k\<close> operations and stops in the
  next one: before it starts (\<open>part = None\<close>) or after \<open>n\<close> characters (\<open>part = Some n\<close>).
  With \<open>k\<close> at or past the number of operations the run is complete. The \<^verbatim>\<open>catch\<close> block
  only logs, so a throwing operation ends the call in the same file system.
\<close>

definition safeWriteJSON_stopped ::
  "nat \<Rightarrow> nat option \<Rightarrow> files \<Rightarrow> string \<Rightarrow> string \<Rightarrow> files" where
  "safeWriteJSON_stopped k part fs filePath json =
     (let ops = safeWriteJSON_ops fs filePath json;
          fs' = run_ops (take k ops) fs
      in case (drop k ops, part) of
           (op # _, Some n) \<Rightarrow> cut_op n op fs'
         | _ \<Rightarrow> fs')"

text \<open>The run that stops immediately before the rename.\<close>

definition safeWriteJSON_before_rename :: "files \<Rightarrow> string \<Rightarrow> string \<Rightarrow> files" where
  "safeWriteJSON_before_rename fs filePath json =
     safeWriteJSON_stopped (length (safeWriteJSON_ops fs filePath json) - 1) None fs filePath json"

section \<open>Credential refresher and the retry loop of a call\<close>

text \<open>
  The refresh exchange is an HTTP call; its answer for an account is the parameter
  \<open>exchange\<close>: a failure with its status code, or a new access token, refresh token and
  lifetime in seconds. \<^verbatim>\<open>ensureFreshAccountToken\<close> rewrites the account in place on
  success; the model returns the rewritten account. Saving the account list is left out.
\<close>

datatype refresh_response = RefreshFailed int | RefreshOk string string int

datatype refresh_result = Fresh account | Failed int

definition ensureFreshAccountToken ::
  "int \<Rightarrow> (account \<Rightarrow> refresh_response) \<Rightarrow> account \<Rightarrow> refresh_result" where
  "ensureFreshAccountToken now exchange a =
     (if truthy (access a) \<and> (case expires a of None \<Rightarrow> False | Some e \<Rightarrow> e > now)
      then Fresh a
      else
        (case exchange a of
           RefreshFailed code \<Rightarrow> Failed code
         | RefreshOk access_token refresh_token expires_in \<Rightarrow>
             Fresh (a\<lparr>access := Some access_token,
                      refresh := Some refresh_token,
                      expires := Some (now + expires_in * 1000),
                      accessToken := Some access_token,
                      refreshToken := Some refresh_token,
                      expiresAt := Some (ExpiryNumber (now + expires_in * 1000))\<rparr>)))"

text \<open>
  The part of \<^verbatim>\<open>fetch\<close> from the selection to the end of the retry loop. The two
  \<^verbatim>\<open>throw\<close> statements are the values of \<open>fetch_error\<close>. Beside the outcome the model
  returns \<open>tried\<close>, the accounts handed to \<^verbatim>\<open>ensureFreshAccountToken\<close> in call order,
  which the source does not keep; \<open>attempted\<close> is the set \<^verbatim>\<open>attemptedAccounts\<close>.
\<close>

datatype fetch_error = NoAccountsConfigured | TokenRefreshFailed string int

definition track_account :: "int \<Rightarrow> account list \<Rightarrow> string option \<Rightarrow> account \<Rightarrow> state \<Rightarrow> state" where
  "track_account now accounts previousAccount a st =
     (let st1 = st\<lparr>currentAccount := Some (name a)\<rparr>
      in if Some (name a) \<noteq> previousAccount \<and>
            (case accounts of [] \<Rightarrow> True | p # _ \<Rightarrow> name a \<noteq> name p)
         then st1\<lparr>lastPrimaryCheck := Some now\<rparr> else st1)"

function refresh_loop ::
  "int \<Rightarrow> (account \<Rightarrow> refresh_response) \<Rightarrow> account list \<Rightarrow> string option \<Rightarrow>
   account \<Rightarrow> string list \<Rightarrow> account list \<Rightarrow> state \<Rightarrow>
   account list \<times> (fetch_error + account \<times> state)" where
  "refresh_loop now exchange accounts previousAccount a attempted tried st =
     (case ensureFreshAccountToken now exchange a of
        Fresh a' \<Rightarrow> (tried @ [a], Inr (a', st))
      | Failed code \<Rightarrow>
          (case find (\<lambda>candidate. name candidate \<notin> set (name a # attempted)) accounts of
             None \<Rightarrow> (tried @ [a], Inl (TokenRefreshFailed (name a) code))
           | Some fallback \<Rightarrow>
               refresh_loop now exchange accounts previousAccount fallback (name a # attempted)
                 (tried @ [a]) (track_account now accounts previousAccount fallback st)))"
  by pat_completeness auto
termination
proof (relation "measure (\<lambda>(now, exchange, accounts, previousAccount, a, attempted, tried, st).
          2 * length (filter (\<lambda>c. name c \<notin> set attempted) accounts) +
          (if name a \<notin> set attempted \<and> name a \<in> name ` set accounts then 0 else 1))", goal_cases)
  case 1
  show ?case by simp
next
  case (2 now exchange accounts previousAccount a attempted tried st code fallback)
  let ?P = "\<lambda>c. name c \<notin> set (name a # attempted)"
  let ?Q = "\<lambda>c. name c \<notin> set attempted"
  from 2 have fb: "fallback \<in> set accounts" "?P fallback"
    by (auto simp: find_Some_iff in_set_conv_nth)
  have eq: "filter ?P accounts = filter ?P (filter ?Q accounts)"
    by (induction accounts) auto
  have le: "length (filter ?P accounts) \<le> length (filter ?Q accounts)"
    by (subst eq) (rule length_filter_le)
  have lt: "length (filter ?P accounts) < length (filter ?Q accounts)"
    if "name a \<notin> set attempted" "name a \<in> name ` set accounts"
  proof -
    from that obtain c where "c \<in> set accounts" "name c = name a" by auto
    with that have "c \<in> set (filter ?Q accounts)" "\<not> ?P c" by auto
    then have "length (filter ?P (filter ?Q accounts)) < length (filter ?Q accounts)"
      by (rule length_filter_less)
    with eq show ?thesis by simp
  qed
  from fb have g': "name fallback \<notin> set (name a # attempted) \<and> name fallback \<in> name ` set accounts"
    by auto
  show ?case
  proof (cases "name a \<notin> set attempted \<and> name a \<in> name ` set accounts")
    case True
    with lt g' show ?thesis by simp
  next
    case False
    with le g' show ?thesis by auto
  qed
qed

definition select_and_refresh ::
  "int \<Rightarrow> (account \<Rightarrow> refresh_response) \<Rightarrow> account list \<Rightarrow> state \<Rightarrow>
   account list \<times> (fetch_error + account \<times> state)" where
  "select_and_refresh now exchange accounts st =
     (case selectThresholdAccount now accounts st of
        (None, st1) \<Rightarrow> ([], Inl NoAccountsConfigured)
      | (Some a, st1) \<Rightarrow>
          refresh_loop now exchange accounts (currentAccount st1) a [] []
            (track_account now accounts (currentAccount st1) a st1))"

section \<open>Example inputs\<close>

definition example_account :: "string \<Rightarrow> account" where
  "example_account n =
     \<lparr>name = n, access = Some ''access'', refresh = Some ''refresh'', expires = Some 0,
      accessToken = None, refreshToken = None, expiresAt = None\<rparr>"

definition example_metric :: "real \<Rightarrow> int option \<Rightarrow> metric" where
  "example_metric u r = \<lparr>utilization = u, reset = r, status = ''rate_limited''\<rparr>"

definition example_usage :: "real \<Rightarrow> real \<Rightarrow> real \<Rightarrow> account_usage" where
  "example_usage s w n =
     \<lparr>session5h = Some (example_metric s None), weekly7d = Some (example_metric w None),
      weekly7dSonnet = Some (example_metric n None), timestamp = None\<rparr>"

text \<open>
  The end-to-end scenario of the specification: accounts \<open>primary\<close> and \<open>backup\<close>, default
  configuration, the primary at 0.85 of its weekly quota.
\<close>

definition example_state :: "string option \<Rightarrow> real \<Rightarrow> int option \<Rightarrow> state" where
  "example_state current backupSession lastCheck =
     \<lparr>currentAccount = current,
      usage = Some [(''primary'', example_usage 0 0.85 0),
                    (''backup'', example_usage backupSession 0.1 0.1)],
      requestCount = Some 0,
      lastPrimaryCheck = lastCheck,
      config = None\<rparr>"

text \<open>Stand-ins for \<^verbatim>\<open>parseFloat\<close> and \<^verbatim>\<open>parseInt\<close> on the strings of the examples.\<close>

definition example_parseFloat :: "string \<Rightarrow> real option" where
  "example_parseFloat t = (if t = ''0.9'' then Some 0.9 else None)"

definition example_parseInt :: "string \<Rightarrow> int option" where
  "example_parseInt t = (if t = ''1700003600'' then Some 1700003600 else None)"

definition no_headers :: metric_headers where
  "no_headers = \<lparr>hdr_utilization = None, hdr_reset = None, hdr_status = None\<rparr>"

text \<open>An observation: utilization alone for the session metric, utilization and reset for the
  weekly metric, nothing for the third.\<close>

definition example_observation :: observation where
  "example_observation =
     \<lparr>obs_5h = \<lparr>hdr_utilization = Some ''0.9'', hdr_reset = None, hdr_status = None\<rparr>,
      obs_7d = \<lparr>hdr_utilization = Some ''0.9'', hdr_reset = Some ''1700003600'',
                hdr_status = None\<rparr>,
      obs_7d_sonnet = no_headers\<rparr>"

text \<open>
  A refresh exchange that rejects \<open>backup\<close> with 401 and \<open>primary\<close> with 403, and two
  records for one account name as two legacy sources may hold them.
\<close>

definition example_exchange :: "account \<Rightarrow> refresh_response" where
  "example_exchange a =
     (if name a = ''backup'' then RefreshFailed 401
      else if name a = ''primary'' then RefreshFailed 403
      else RefreshOk ''access2'' ''refresh2'' 3600)"

definition example_with_refresh :: account where
  "example_with_refresh =
     \<lparr>name = ''work'', access = Some ''a1'', refresh = Some ''r1'', expires = Some 100,
      accessToken = None, refreshToken = None, expiresAt = None\<rparr>"

definition example_without_refresh :: account where
  "example_without_refresh =
     \<lparr>name = ''work'', access = Some ''a2'', refresh = Some [], expires = Some 200,
      accessToken = None, refreshToken = None, expiresAt = None\<rparr>"

text \<open>Three accounts that are all over the default threshold of 0.70.\<close>

definition example_busy_state :: state where
  "example_busy_state =
     \<lparr>currentAccount = Some ''primary'',
      usage = Some [(''primary'', example_usage 0 0.85 0),
                    (''backup'', example_usage 0.95 0.1 0.1),
                    (''spare'', example_usage 0.2 0.8 0.1)],
      requestCount = Some 7,
      lastPrimaryCheck = None,
      config = None\<rparr>"

section \<open>Selection engine: proofs\<close>

lemma find_first_split:
  "xs = pre @ f # post \<Longrightarrow> \<forall>g\<in>set pre. \<not> P g \<Longrightarrow> P f \<Longrightarrow> find P xs = Some f"
  by (induction pre arbitrary: xs) auto

lemma find_None_all: "(find P xs = None) = (\<forall>x\<in>set xs. \<not> P x)"
  by (induction xs) auto

lemma find_by_name:
  "distinct (map name xs) \<Longrightarrow> x \<in> set xs \<Longrightarrow> find (\<lambda>a. Some (name a) = Some (name x)) xs = Some x"
  by (induction xs) (auto simp: image_iff)

lemma find_member: "find P xs = Some x \<Longrightarrow> x \<in> set xs \<and> P x"
  by (induction xs) (auto split: if_splits)

lemmas example_defs =
  example_account_def example_metric_def example_usage_def example_state_def

lemmas select_defs =
  selectThresholdAccount_def thresholds_of_def normalizeThresholds_def usage_of_def
  isOverThreshold_def util_of_def check_interval_of_def resetPassed_def intervalPassed_def
  getEarliestResetTime_def resets_def List.map_filter_def

text \<open>
  How the predicates of the selection read on a usage that is present: over threshold means
  that one of the three utilizations is above its threshold, the earliest reset is the
  least of the resets that are present, and with a check timestamp that is not negative
  the reset trigger says that this instant lies after the last check and not after \<open>now\<close>.
\<close>

lemma isOverThreshold_reading:
  "isOverThreshold th (Some u) \<longleftrightarrow>
     thr_session5h th < util_of (session5h u) \<or> thr_weekly7d th < util_of (weekly7d u) \<or>
     thr_weekly7dSonnet th < util_of (weekly7dSonnet u)"
  by (simp add: isOverThreshold_def)

lemma getEarliestResetTime_reading:
  "getEarliestResetTime (Some u) =
     (if resets u = [] then None else Some (Min (set (resets u)) * 1000))"
proof (cases "resets u")
  case Nil
  then show ?thesis by (simp add: getEarliestResetTime_def)
next
  case (Cons r rs)
  have "fold min rs r = Min (set (r # rs))" by (rule Min.set_eq_fold[symmetric])
  with Cons show ?thesis by (simp add: getEarliestResetTime_def)
qed

lemma resetPassed_reading:
  assumes "case lastPrimaryCheck st of None \<Rightarrow> True | Some t \<Rightarrow> 0 \<le> t"
  shows "resetPassed now st pu \<longleftrightarrow>
           (\<exists>e. getEarliestResetTime pu = Some e \<and>
                (case lastPrimaryCheck st of None \<Rightarrow> 0 | Some t \<Rightarrow> t) < e \<and> e \<le> now)"
  using assms by (auto simp: resetPassed_def Let_def split: option.splits)

text \<open>
  C1. With at least two accounts and the primary active, the primary is kept while it is
  not over threshold; once it is, the first fallback in list order that is not over
  threshold is chosen.
\<close>

theorem select_from_primary:
  assumes nonempty: "name primary \<noteq> []"
      and active: "currentAccount st = Some (name primary)"
  shows "(\<not> isOverThreshold (thresholds_of st) (usage_of st (name primary)) \<longrightarrow>
            fst (selectThresholdAccount now (primary # f0 # rest) st) = Some primary) \<and>
         (isOverThreshold (thresholds_of st) (usage_of st (name primary)) \<longrightarrow>
            (\<forall>pre f post.
               f0 # rest = pre @ f # post \<and>
               (\<forall>g\<in>set pre. isOverThreshold (thresholds_of st) (usage_of st (name g))) \<and>
               \<not> isOverThreshold (thresholds_of st) (usage_of st (name f)) \<longrightarrow>
               fst (selectThresholdAccount now (primary # f0 # rest) st) = Some f))"
proof (intro conjI impI allI)
  assume "\<not> isOverThreshold (thresholds_of st) (usage_of st (name primary))"
  then show "fst (selectThresholdAccount now (primary # f0 # rest) st) = Some primary"
    using nonempty active by (simp add: selectThresholdAccount_def)
next
  fix pre f post
  assume over: "isOverThreshold (thresholds_of st) (usage_of st (name primary))"
     and h: "f0 # rest = pre @ f # post \<and>
               (\<forall>g\<in>set pre. isOverThreshold (thresholds_of st) (usage_of st (name g))) \<and>
               \<not> isOverThreshold (thresholds_of st) (usage_of st (name f))"
  have "find (\<lambda>f. \<not> isOverThreshold (thresholds_of st) (usage_of st (name f))) (f0 # rest) = Some f"
    using h by (intro find_first_split[where pre=pre and post=post]) auto
  then show "fst (selectThresholdAccount now (primary # f0 # rest) st) = Some f"
    using nonempty active over by (simp add: selectThresholdAccount_def Let_def)
qed

theorem select_from_primary_witness:
  "fst (selectThresholdAccount 0 [example_account ''primary'', example_account ''backup'']
          (example_state (Some ''primary'') 0.1 None\<lparr>config :=
             Some \<lparr>threshold = Some (ThresholdNumber 0.9), checkInterval = None\<rparr>\<rparr>))
     = Some (example_account ''primary'') \<and>
   fst (selectThresholdAccount 0 [example_account ''primary'', example_account ''backup'']
          (example_state (Some ''primary'') 0.1 None))
     = Some (example_account ''backup'')"
proof -
  let ?p = "example_account ''primary''"
  let ?b = "example_account ''backup''"
  let ?st = "example_state (Some ''primary'') 0.1 None"
  let ?st9 = "?st\<lparr>config := Some \<lparr>threshold = Some (ThresholdNumber 0.9), checkInterval = None\<rparr>\<rparr>"
  have n: "name ?p \<noteq> []" by (simp add: example_defs)
  have a9: "currentAccount ?st9 = Some (name ?p)" by (simp add: example_defs)
  have a: "currentAccount ?st = Some (name ?p)" by (simp add: example_defs)
  have under9: "\<not> isOverThreshold (thresholds_of ?st9) (usage_of ?st9 (name ?p))"
    by (simp add: example_defs select_defs)
  have over: "isOverThreshold (thresholds_of ?st) (usage_of ?st (name ?p))"
    by (simp add: example_defs select_defs)
  have free: "[?b] = [] @ ?b # [] \<and>
      (\<forall>g\<in>set []. isOverThreshold (thresholds_of ?st) (usage_of ?st (name g))) \<and>
      \<not> isOverThreshold (thresholds_of ?st) (usage_of ?st (name ?b))"
    by (simp add: example_defs select_defs)
  from select_from_primary[OF n a9, of 0 ?b "[]", THEN conjunct1, rule_format, OF under9]
  have one: "fst (selectThresholdAccount 0 [?p, ?b] ?st9) = Some ?p" .
  from select_from_primary[OF n a, of 0 ?b "[]", THEN conjunct2, rule_format, OF over free]
  have two: "fst (selectThresholdAccount 0 [?p, ?b] ?st) = Some ?b" .
  from one two show ?thesis by (rule conjI)
qed

text \<open>
  C2. With a fallback active, the call returns that fallback and leaves the state as it
  is unless one of the two recovery triggers fires. When one fires, the check timestamp
  becomes \<open>now\<close>, and the primary is returned exactly if it is not over threshold;
  otherwise the fallback is kept.
\<close>

theorem select_from_fallback:
  assumes names: "distinct (map name (primary # fallbacks))"
      and member: "fb \<in> set fallbacks"
      and nonempty: "name fb \<noteq> []"
      and active: "currentAccount st = Some (name fb)"
  shows "(\<not> (resetPassed now st (usage_of st (name primary)) \<or> intervalPassed now st) \<longrightarrow>
            selectThresholdAccount now (primary # fallbacks) st = (Some fb, st)) \<and>
         (resetPassed now st (usage_of st (name primary)) \<or> intervalPassed now st \<longrightarrow>
            snd (selectThresholdAccount now (primary # fallbacks) st) =
              st\<lparr>lastPrimaryCheck := Some now\<rparr> \<and>
            (fst (selectThresholdAccount now (primary # fallbacks) st) = Some primary \<longleftrightarrow>
               \<not> isOverThreshold (thresholds_of st) (usage_of st (name primary))) \<and>
            (isOverThreshold (thresholds_of st) (usage_of st (name primary)) \<longrightarrow>
               fst (selectThresholdAccount now (primary # fallbacks) st) = Some fb))"
proof -
  obtain f0 rest where fs: "fallbacks = f0 # rest"
    using member by (cases fallbacks) auto
  have "name fb \<in> name ` set fallbacks" using member by (rule imageI)
  then have ne: "name fb \<noteq> name primary" "fb \<noteq> primary"
    using names by auto
  have "fb \<in> set (primary # fallbacks)" using member by simp
  from find_by_name[OF names this]
  have found: "find (\<lambda>a. Some (name a) = currentAccount st) (primary # f0 # rest) = Some fb"
    using active fs by simp
  show ?thesis
    unfolding fs using nonempty active ne found
    by (auto simp: selectThresholdAccount_def Let_def)
qed

theorem select_from_fallback_witness:
  "selectThresholdAccount 2000 [example_account ''primary'', example_account ''backup'']
       (example_state (Some ''backup'') 0.1 (Some 1000))
     = (Some (example_account ''backup''), example_state (Some ''backup'') 0.1 (Some 1000)) \<and>
   selectThresholdAccount 3600001 [example_account ''primary'', example_account ''backup'']
       (example_state (Some ''backup'') 0.1 None)
     = (Some (example_account ''backup''), example_state (Some ''backup'') 0.1 (Some 3600001)) \<and>
   selectThresholdAccount 3600001 [example_account ''primary'', example_account ''backup'']
       (example_state (Some ''backup'') 0.1 None\<lparr>config :=
          Some \<lparr>threshold = Some (ThresholdNumber 0.9), checkInterval = None\<rparr>\<rparr>)
     = (Some (example_account ''primary''),
        example_state (Some ''backup'') 0.1 (Some 3600001)\<lparr>config :=
          Some \<lparr>threshold = Some (ThresholdNumber 0.9), checkInterval = None\<rparr>\<rparr>)"
proof -
  let ?p = "example_account ''primary''"
  let ?b = "example_account ''backup''"
  let ?quiet = "example_state (Some ''backup'') 0.1 (Some 1000)"
  let ?due = "example_state (Some ''backup'') 0.1 None"
  let ?due9 = "?due\<lparr>config := Some \<lparr>threshold = Some (ThresholdNumber 0.9), checkInterval = None\<rparr>\<rparr>"
  have d: "distinct (map name [?p, ?b])" by (simp add: example_defs)
  have m: "?b \<in> set [?b]" by simp
  have n: "name ?b \<noteq> []" by (simp add: example_defs)
  have a1: "currentAccount ?quiet = Some (name ?b)" by (simp add: example_defs)
  have a2: "currentAccount ?due = Some (name ?b)" by (simp add: example_defs)
  have a3: "currentAccount ?due9 = Some (name ?b)" by (simp add: example_defs)
  have q: "\<not> (resetPassed 2000 ?quiet (usage_of ?quiet (name ?p)) \<or> intervalPassed 2000 ?quiet)"
    by (simp add: example_defs select_defs)
  have f2: "resetPassed 3600001 ?due (usage_of ?due (name ?p)) \<or> intervalPassed 3600001 ?due"
    by (simp add: example_defs select_defs)
  have f3: "resetPassed 3600001 ?due9 (usage_of ?due9 (name ?p)) \<or> intervalPassed 3600001 ?due9"
    by (simp add: example_defs select_defs)
  have o2: "isOverThreshold (thresholds_of ?due) (usage_of ?due (name ?p))"
    by (simp add: example_defs select_defs)
  have u3: "\<not> isOverThreshold (thresholds_of ?due9) (usage_of ?due9 (name ?p))"
    by (simp add: example_defs select_defs)
  from select_from_fallback[OF d m n a1, of 2000, THEN conjunct1, rule_format, OF q]
  have one: "selectThresholdAccount 2000 [?p, ?b] ?quiet = (Some ?b, ?quiet)" .
  from select_from_fallback[OF d m n a2, of 3600001, THEN conjunct2, rule_format, OF f2] o2
  have "snd (selectThresholdAccount 3600001 [?p, ?b] ?due) = ?due\<lparr>lastPrimaryCheck := Some 3600001\<rparr>"
    and "fst (selectThresholdAccount 3600001 [?p, ?b] ?due) = Some ?b"
    by blast+
  then have two: "selectThresholdAccount 3600001 [?p, ?b] ?due =
      (Some ?b, example_state (Some ''backup'') 0.1 (Some 3600001))"
    by (simp add: prod_eq_iff example_state_def)
  from select_from_fallback[OF d m n a3, of 3600001, THEN conjunct2, rule_format, OF f3] u3
  have "snd (selectThresholdAccount 3600001 [?p, ?b] ?due9) = ?due9\<lparr>lastPrimaryCheck := Some 3600001\<rparr>"
    and "fst (selectThresholdAccount 3600001 [?p, ?b] ?due9) = Some ?p"
    by blast+
  then have three: "selectThresholdAccount 3600001 [?p, ?b] ?due9 =
      (Some ?p, example_state (Some ''backup'') 0.1 (Some 3600001)\<lparr>config :=
          Some \<lparr>threshold = Some (ThresholdNumber 0.9), checkInterval = None\<rparr>\<rparr>)"
    by (simp add: prod_eq_iff example_state_def)
  from one two three show ?thesis by blast
qed

text \<open>
  C9. A recorded active name that matches no listed account takes the fallback branch: the
  call returns the primary when a recovery trigger fires and the primary is not over
  threshold, and the first fallback otherwise.
\<close>

theorem select_unknown_active:
  assumes active: "currentAccount st = Some c"
      and nonempty: "c \<noteq> []"
      and unknown: "c \<notin> name ` set (primary # f0 # rest)"
  shows "fst (selectThresholdAccount now (primary # f0 # rest) st) =
           Some (if (resetPassed now st (usage_of st (name primary)) \<or> intervalPassed now st) \<and>
                    \<not> isOverThreshold (thresholds_of st) (usage_of st (name primary))
                 then primary else f0)"
proof -
  have "find (\<lambda>a. Some (name a) = currentAccount st) (primary # f0 # rest) = None"
    using unknown active by (simp only: find_None_all) auto
  moreover have "c \<noteq> name primary" using unknown by auto
  ultimately show ?thesis
    using active nonempty by (simp add: selectThresholdAccount_def Let_def)
qed

theorem select_unknown_active_witness:
  "fst (selectThresholdAccount 3600001 [example_account ''primary'', example_account ''backup'']
          (example_state (Some ''removed'') 0.1 None)) = Some (example_account ''backup'')"
proof -
  let ?st = "example_state (Some ''removed'') 0.1 None"
  have a: "currentAccount ?st = Some ''removed''" by (simp add: example_defs)
  have n: "''removed'' \<noteq> []" by simp
  have u: "''removed'' \<notin> name ` set [example_account ''primary'', example_account ''backup'']"
    by (simp add: example_defs)
  from select_unknown_active[OF a n u, of 3600001]
  show ?thesis by (simp add: example_defs select_defs)
qed

theorem select_unknown_active_counterexample:
  "''removed'' \<noteq> name (example_account ''primary'') \<and>
   ''removed'' \<noteq> name (example_account ''backup'') \<and>
   fst (selectThresholdAccount 3600001 [example_account ''primary'', example_account ''backup'']
          (example_state (Some ''removed'') 0.1 None\<lparr>config :=
             Some \<lparr>threshold = Some (ThresholdNumber 0.9), checkInterval = None\<rparr>\<rparr>))
     = Some (example_account ''primary'') \<and>
   fst (selectThresholdAccount 3600001 [example_account ''primary'', example_account ''backup'']
          (example_state (Some ''removed'') 0.1 None\<lparr>config :=
             Some \<lparr>threshold = Some (ThresholdNumber 0.9), checkInterval = None\<rparr>\<rparr>))
     \<noteq> Some (example_account ''backup'')"
  by (simp add: example_defs select_defs)

text \<open>
  C10. The call leaves \<open>usage\<close>, \<open>currentAccount\<close>, \<open>requestCount\<close> and \<open>config\<close> as they
  are. The check timestamp changes only to \<open>now\<close>, and only when there are at least two
  accounts, a recovery trigger fires, and the recorded active name is set and is not the
  primary's. Such a name is a fallback's when it is the name of a listed account; it may
  also be the name of no listed account, and the timestamp changes then as well.
\<close>

theorem select_frame:
  "usage (snd (selectThresholdAccount now accounts st)) = usage st \<and>
   currentAccount (snd (selectThresholdAccount now accounts st)) = currentAccount st \<and>
   requestCount (snd (selectThresholdAccount now accounts st)) = requestCount st \<and>
   config (snd (selectThresholdAccount now accounts st)) = config st \<and>
   (lastPrimaryCheck (snd (selectThresholdAccount now accounts st)) \<noteq> lastPrimaryCheck st \<longrightarrow>
      lastPrimaryCheck (snd (selectThresholdAccount now accounts st)) = Some now \<and>
      (\<exists>primary f0 rest c.
         accounts = primary # f0 # rest \<and> currentAccount st = Some c \<and> c \<noteq> [] \<and>
         c \<noteq> name primary \<and>
         (c \<in> name ` set accounts \<longrightarrow> c \<in> name ` set (f0 # rest)) \<and>
         (resetPassed now st (usage_of st (name primary)) \<or> intervalPassed now st)))"
proof (cases accounts)
  case Nil
  then show ?thesis by (simp add: selectThresholdAccount_def)
next
  case (Cons primary fallbacks)
  show ?thesis
  proof (cases fallbacks)
    case Nil
    with Cons show ?thesis by (simp add: selectThresholdAccount_def)
  next
    case (Cons f0 rest)
    with \<open>accounts = primary # fallbacks\<close> have acc: "accounts = primary # f0 # rest" by simp
    show ?thesis
      unfolding acc
      by (auto simp: selectThresholdAccount_def Let_def split: option.splits)
  qed
qed

theorem select_frame_witness:
  "lastPrimaryCheck (snd (selectThresholdAccount 3600001
       [example_account ''primary'', example_account ''backup'']
       (example_state (Some ''backup'') 0.1 None)))
     \<noteq> lastPrimaryCheck (example_state (Some ''backup'') 0.1 None) \<and>
   lastPrimaryCheck (snd (selectThresholdAccount 3600001
       [example_account ''primary'', example_account ''backup'']
       (example_state (Some ''backup'') 0.1 None))) = Some 3600001"
proof -
  let ?r = "selectThresholdAccount 3600001
       [example_account ''primary'', example_account ''backup'']
       (example_state (Some ''backup'') 0.1 None)"
  have changed: "lastPrimaryCheck (snd ?r) \<noteq> lastPrimaryCheck (example_state (Some ''backup'') 0.1 None)"
    by (simp add: example_defs select_defs)
  from select_frame[of 3600001 "[example_account ''primary'', example_account ''backup'']"
      "example_state (Some ''backup'') 0.1 None"] changed
  have "lastPrimaryCheck (snd ?r) = Some 3600001" by blast
  with changed show ?thesis by blast
qed

theorem select_frame_counterexample:
  "currentAccount (example_state (Some ''removed'') 0.1 None) = Some ''removed'' \<and>
   ''removed'' \<noteq> name (example_account ''primary'') \<and>
   ''removed'' \<noteq> name (example_account ''backup'') \<and>
   lastPrimaryCheck (snd (selectThresholdAccount 3600001
       [example_account ''primary'', example_account ''backup'']
       (example_state (Some ''removed'') 0.1 None)))
     \<noteq> lastPrimaryCheck (example_state (Some ''removed'') 0.1 None) \<and>
   lastPrimaryCheck (snd (selectThresholdAccount 3600001
       [example_account ''primary'', example_account ''backup'']
       (example_state (Some ''removed'') 0.1 None))) = Some 3600001"
  by (simp add: example_defs select_defs)

lemma js_lt_irrefl: "\<not> js_lt a a"
  by (cases a) auto

lemma js_lt_trans: "js_lt a b \<Longrightarrow> js_lt b c \<Longrightarrow> js_lt a c"
  by (cases a; cases b; cases c) auto

lemma js_max2_Fin: "js_max2 (Fin a) (Fin b) = Fin (max a b)"
  by (auto simp: max_def)

lemma score_nonzero_thresholds:
  assumes "thr_session5h th \<noteq> 0" "thr_weekly7d th \<noteq> 0" "thr_weekly7dSonnet th \<noteq> 0"
  shows "getUtilizationScore th (Some u) = Fin (spec_pressure th u)"
  using assms by (simp add: getUtilizationScore_def js_max3_def js_div_def js_max2_Fin spec_pressure_def)

lemma pick_step_mono:
  fixes sc :: "'a \<Rightarrow> jsnum"
  assumes "\<not> js_lt (sc g) (sc lo)"
  shows "\<not> js_lt (sc g) (sc (if js_lt (sc f) (sc lo) then f else lo))"
  using assms js_lt_trans by auto

lemma foldl_pick_mono:
  fixes sc :: "'a \<Rightarrow> jsnum"
  shows "\<not> js_lt (sc g) (sc lo) \<Longrightarrow>
    \<not> js_lt (sc g) (sc (foldl (\<lambda>lowest f. if js_lt (sc f) (sc lowest) then f else lowest) lo xs))"
proof (induction xs arbitrary: lo)
  case Nil
  then show ?case by simp
next
  case (Cons x xs)
  have "\<not> js_lt (sc g) (sc (if js_lt (sc x) (sc lo) then x else lo))"
    using Cons.prems by (rule pick_step_mono)
  from Cons.IH[OF this] show ?case by simp
qed

lemma foldl_pick_member:
  fixes sc :: "'a \<Rightarrow> jsnum"
  shows "foldl (\<lambda>lowest f. if js_lt (sc f) (sc lowest) then f else lowest) lo xs \<in> insert lo (set xs)"
  by (induction xs arbitrary: lo) (auto split: if_splits)

lemma foldl_pick_lowest:
  fixes sc :: "'a \<Rightarrow> jsnum"
  shows "g \<in> set xs \<Longrightarrow>
    \<not> js_lt (sc g) (sc (foldl (\<lambda>lowest f. if js_lt (sc f) (sc lowest) then f else lowest) lo xs))"
proof (induction xs arbitrary: lo)
  case Nil
  then show ?case by simp
next
  case (Cons x xs)
  show ?case
  proof (cases "g = x")
    case True
    have "\<not> js_lt (sc g) (sc (if js_lt (sc x) (sc lo) then x else lo))"
      using True js_lt_irrefl by auto
    from foldl_pick_mono[of sc, OF this] show ?thesis by simp
  next
    case False
    with Cons.prems have "g \<in> set xs" by simp
    from Cons.IH[OF this] show ?thesis by simp
  qed
qed

lemma pick_best_member: "pick_best th st f0 (f0 # rest) \<in> set (f0 # rest)"
  unfolding pick_best_def using foldl_pick_member[where lo=f0 and xs="f0 # rest"] by auto

lemma pick_best_lowest:
  "g \<in> set (f0 # rest) \<Longrightarrow>
   \<not> js_lt (getUtilizationScore th (usage_of st (name g)))
            (getUtilizationScore th (usage_of st (name (pick_best th st f0 (f0 # rest)))))"
  unfolding pick_best_def
  by (rule foldl_pick_lowest[where sc="\<lambda>a. getUtilizationScore th (usage_of st (name a))"])

lemma over_has_usage: "isOverThreshold th u \<Longrightarrow> \<exists>x. u = Some x"
  by (cases u) (auto simp: isOverThreshold_def)

text \<open>
  C5. With the primary active and over threshold and every fallback over threshold as
  well, the call returns a fallback such that no fallback has a lower score in the
  JavaScript order. When no threshold is zero the score is the pressure of the
  specification, and the returned fallback's pressure is at most that of every fallback.
\<close>

theorem select_all_over_lowest_pressure:
  assumes nonempty: "name primary \<noteq> []"
      and active: "currentAccount st = Some (name primary)"
      and over: "isOverThreshold (thresholds_of st) (usage_of st (name primary))"
      and allover: "\<forall>g\<in>set (f0 # rest). isOverThreshold (thresholds_of st) (usage_of st (name g))"
  shows "\<exists>b\<in>set (f0 # rest).
           fst (selectThresholdAccount now (primary # f0 # rest) st) = Some b \<and>
           (\<forall>g\<in>set (f0 # rest).
              \<not> js_lt (getUtilizationScore (thresholds_of st) (usage_of st (name g)))
                       (getUtilizationScore (thresholds_of st) (usage_of st (name b)))) \<and>
           (thr_session5h (thresholds_of st) \<noteq> 0 \<and> thr_weekly7d (thresholds_of st) \<noteq> 0 \<and>
            thr_weekly7dSonnet (thresholds_of st) \<noteq> 0 \<longrightarrow>
              (\<forall>g\<in>set (f0 # rest). \<exists>ub ug.
                 usage_of st (name b) = Some ub \<and> usage_of st (name g) = Some ug \<and>
                 spec_pressure (thresholds_of st) ub \<le> spec_pressure (thresholds_of st) ug))"
proof -
  let ?th = "thresholds_of st"
  let ?b = "pick_best ?th st f0 (f0 # rest)"
  have none: "find (\<lambda>f. \<not> isOverThreshold ?th (usage_of st (name f))) (f0 # rest) = None"
    using allover by (simp only: find_None_all) simp
  have sel: "fst (selectThresholdAccount now (primary # f0 # rest) st) = Some ?b"
    using nonempty active over none by (simp add: selectThresholdAccount_def Let_def)
  have mem: "?b \<in> set (f0 # rest)" by (rule pick_best_member)
  have low: "\<forall>g\<in>set (f0 # rest).
      \<not> js_lt (getUtilizationScore ?th (usage_of st (name g)))
               (getUtilizationScore ?th (usage_of st (name ?b)))"
    using pick_best_lowest by blast
  have real_low: "\<exists>ub ug. usage_of st (name ?b) = Some ub \<and> usage_of st (name g) = Some ug \<and>
                 spec_pressure ?th ub \<le> spec_pressure ?th ug"
    if nz: "thr_session5h ?th \<noteq> 0 \<and> thr_weekly7d ?th \<noteq> 0 \<and> thr_weekly7dSonnet ?th \<noteq> 0"
      and g: "g \<in> set (f0 # rest)" for g
  proof -
    obtain ub where ub: "usage_of st (name ?b) = Some ub"
      using allover mem over_has_usage by blast
    obtain ug where ug: "usage_of st (name g) = Some ug"
      using allover g over_has_usage by blast
    have "\<not> js_lt (getUtilizationScore ?th (usage_of st (name g)))
               (getUtilizationScore ?th (usage_of st (name ?b)))"
      using low g by blast
    moreover have "getUtilizationScore ?th (Some ug) = Fin (spec_pressure ?th ug)"
      and "getUtilizationScore ?th (Some ub) = Fin (spec_pressure ?th ub)"
      using nz by (simp_all add: score_nonzero_thresholds)
    ultimately have "\<not> js_lt (Fin (spec_pressure ?th ug)) (Fin (spec_pressure ?th ub))"
      by (simp add: ub ug)
    then have "spec_pressure ?th ub \<le> spec_pressure ?th ug" by simp
    with ub ug show ?thesis by blast
  qed
  show ?thesis
    using sel mem low real_low by blast
qed

theorem select_all_over_lowest_pressure_witness:
  "fst (selectThresholdAccount 0
          [example_account ''primary'', example_account ''backup'', example_account ''spare'']
          example_busy_state) = Some (example_account ''spare'') \<and>
   spec_pressure (thresholds_of example_busy_state) (example_usage 0.2 0.8 0.1)
     \<le> spec_pressure (thresholds_of example_busy_state) (example_usage 0.95 0.1 0.1)"
proof -
  let ?p = "example_account ''primary''"
  let ?b = "example_account ''backup''"
  let ?s = "example_account ''spare''"
  let ?st = example_busy_state
  have n: "name ?p \<noteq> []" by (simp add: example_defs)
  have a: "currentAccount ?st = Some (name ?p)" by (simp add: example_defs example_busy_state_def)
  have o: "isOverThreshold (thresholds_of ?st) (usage_of ?st (name ?p))"
    by (simp add: example_defs example_busy_state_def select_defs)
  have ao: "\<forall>g\<in>set [?b, ?s]. isOverThreshold (thresholds_of ?st) (usage_of ?st (name g))"
    by (simp add: example_defs example_busy_state_def select_defs)
  have nz: "thr_session5h (thresholds_of ?st) \<noteq> 0 \<and> thr_weekly7d (thresholds_of ?st) \<noteq> 0 \<and>
            thr_weekly7dSonnet (thresholds_of ?st) \<noteq> 0"
    by (simp add: example_busy_state_def select_defs)
  have ub: "usage_of ?st (name ?b) = Some (example_usage 0.95 0.1 0.1)"
    and us: "usage_of ?st (name ?s) = Some (example_usage 0.2 0.8 0.1)"
    by (simp_all add: example_account_def example_busy_state_def usage_of_def)
  from select_all_over_lowest_pressure[OF n a o ao, of 0]
  obtain c where c: "c \<in> set [?b, ?s]"
    and sel: "fst (selectThresholdAccount 0 [?p, ?b, ?s] ?st) = Some c"
    and low: "\<forall>g\<in>set [?b, ?s]. \<exists>uc ug.
                 usage_of ?st (name c) = Some uc \<and> usage_of ?st (name g) = Some ug \<and>
                 spec_pressure (thresholds_of ?st) uc \<le> spec_pressure (thresholds_of ?st) ug"
    using nz by blast
  have strict: "\<not> spec_pressure (thresholds_of ?st) (example_usage 0.95 0.1 0.1)
                  \<le> spec_pressure (thresholds_of ?st) (example_usage 0.2 0.8 0.1)"
    by (simp add: spec_pressure_def example_defs example_busy_state_def select_defs)
  have "c = ?s"
  proof (rule ccontr)
    assume "c \<noteq> ?s"
    with c have "c = ?b" by simp
    with low ub us have "spec_pressure (thresholds_of ?st) (example_usage 0.95 0.1 0.1)
                  \<le> spec_pressure (thresholds_of ?st) (example_usage 0.2 0.8 0.1)"
      by auto
    with strict show False by contradiction
  qed
  with sel low ub us show ?thesis by auto
qed

section \<open>Usage tracker: proofs\<close>

lemma map_of_resolved:
  "map_of (map (\<lambda>(n, au). (n, f au)) u) k = map_option f (map_of u k)"
  by (induction u) auto

lemma resolveStaleMetrics_lookup:
  "usage_of (snd (resolveStaleMetrics now st)) n = map_option (resolve_usage now) (usage_of st n)"
  by (cases "usage st")
     (simp_all add: resolveStaleMetrics_def usage_of_def map_of_resolved)

lemma resolve_usage_fixed: "\<not> usage_stale now au \<Longrightarrow> resolve_usage now au = au"
  by (cases au)
     (auto simp: usage_stale_def resolve_usage_def resolve_metric_def metric_stale_def
           split: option.splits)

lemma resolve_metric_moves: "metric_stale now m \<Longrightarrow> resolve_metric now m \<noteq> m"
  by (cases m) (auto simp: metric_stale_def resolve_metric_def is_stale_def
      dest!: arg_cong[where f = utilization])

lemma resolve_usage_moves: "usage_stale now au \<Longrightarrow> resolve_usage now au \<noteq> au"
proof -
  assume "usage_stale now au"
  then consider "metric_stale now (session5h au)" | "metric_stale now (weekly7d au)"
    | "metric_stale now (weekly7dSonnet au)"
    by (auto simp: usage_stale_def)
  then show ?thesis
  proof cases
    case 1
    then have "session5h (resolve_usage now au) \<noteq> session5h au"
      by (simp add: resolve_usage_def resolve_metric_moves)
    then show ?thesis by auto
  next
    case 2
    then have "weekly7d (resolve_usage now au) \<noteq> weekly7d au"
      by (simp add: resolve_usage_def resolve_metric_moves)
    then show ?thesis by auto
  next
    case 3
    then have "weekly7dSonnet (resolve_usage now au) \<noteq> weekly7dSonnet au"
      by (simp add: resolve_usage_def resolve_metric_moves)
    then show ?thesis by auto
  qed
qed

lemma resolved_list_changed:
  "(map (\<lambda>(n, au). (n, resolve_usage now au)) u \<noteq> u) = list_ex (\<lambda>(n, au). usage_stale now au) u"
  by (induction u) (auto simp: resolve_usage_fixed resolve_usage_moves)

lemma stale_reading:
  assumes "reset m = Some r" "r \<noteq> 0" "0 \<le> utilization m"
  shows "is_stale now m \<longleftrightarrow> r * 1000 < now \<and> utilization m \<noteq> 0"
  using assms by (auto simp: is_stale_def)

lemma resolve_usage_metric:
  "sel \<in> set metrics \<Longrightarrow> sel (resolve_usage now au) = resolve_metric now (sel au)"
  by (auto simp: metrics_def resolve_usage_def)

text \<open>
  No writer of the usage stores a reset of 0: \<^verbatim>\<open>EMPTY_USAGE\<close> has none, \<^verbatim>\<open>updateMetric\<close>
  stores a parsed reset only when it is not 0 and otherwise keeps the prior one, and
  \<^verbatim>\<open>resolveStaleMetrics\<close> leaves resets alone.
\<close>

lemma updateMetric_reset_nonzero:
  assumes "\<And>p. prev = Some p \<Longrightarrow> reset p \<noteq> Some 0"
      and "updateMetric parseFloat parseInt prev h = Some m"
  shows "reset m \<noteq> Some 0"
proof (cases "updateMetric parseFloat parseInt prev h = prev")
  case True
  with assms show ?thesis by simp
next
  case False
  then have "reset m = (case newReset parseInt h of
                          Some n \<Rightarrow> Some n
                        | None \<Rightarrow> (case prev of Some p \<Rightarrow> reset p | None \<Rightarrow> None))"
    using assms(2) by (auto simp: updateMetric_def split: if_splits)
  moreover have "newReset parseInt h \<noteq> Some 0"
    by (auto simp: newReset_def split: option.splits)
  ultimately show ?thesis
    using assms(1) by (auto split: option.splits)
qed

lemma resolve_metric_keeps_reset:
  "resolve_metric now m = Some m' \<Longrightarrow> \<exists>x. m = Some x \<and> reset m' = reset x"
  by (auto simp: resolve_metric_def split: option.splits if_splits)

text \<open>
  C6. \<^verbatim>\<open>resolveStaleMetrics\<close> resets every metric of every account that has a reset
  instant in the past and a utilization other than zero to utilization 0 and status
  \<open>allowed\<close>, and returns true exactly if the state changed. Metrics range as the program
  and its telemetry produce them: a reset that is present is not 0, which the code reads
  as absent and never stores, and a utilization is a fraction of a quota, so not negative.
\<close>

theorem resolveStaleMetrics_resets:
  "(\<forall>n au sel m r.
      usage_of st n = Some au \<and> sel \<in> set metrics \<and> sel au = Some m \<and>
      reset m = Some r \<and> r \<noteq> 0 \<and> r * 1000 < now \<and> 0 \<le> utilization m \<and> utilization m \<noteq> 0 \<longrightarrow>
      (\<exists>au'. usage_of (snd (resolveStaleMetrics now st)) n = Some au' \<and>
             sel au' = Some (m\<lparr>utilization := 0, status := ''allowed''\<rparr>))) \<and>
   (fst (resolveStaleMetrics now st) \<longleftrightarrow> snd (resolveStaleMetrics now st) \<noteq> st)"
proof (intro conjI allI impI)
  fix n au sel m r
  assume h: "usage_of st n = Some au \<and> sel \<in> set metrics \<and> sel au = Some m \<and>
      reset m = Some r \<and> r \<noteq> 0 \<and> r * 1000 < now \<and> 0 \<le> utilization m \<and> utilization m \<noteq> 0"
  then obtain u where u: "usage st = Some u" "map_of u n = Some au"
    by (auto simp: usage_of_def split: option.splits)
  have stale: "is_stale now m" using h by (simp add: stale_reading)
  have "usage_of (snd (resolveStaleMetrics now st)) n = Some (resolve_usage now au)"
    using u by (simp add: resolveStaleMetrics_def usage_of_def map_of_resolved)
  moreover have "sel (resolve_usage now au) = Some (m\<lparr>utilization := 0, status := ''allowed''\<rparr>)"
    using h stale by (simp add: resolve_usage_metric resolve_metric_def)
  ultimately show "\<exists>au'. usage_of (snd (resolveStaleMetrics now st)) n = Some au' \<and>
             sel au' = Some (m\<lparr>utilization := 0, status := ''allowed''\<rparr>)"
    by blast
next
  show "fst (resolveStaleMetrics now st) \<longleftrightarrow> snd (resolveStaleMetrics now st) \<noteq> st"
  proof (cases "usage st")
    case None
    then show ?thesis by (simp add: resolveStaleMetrics_def)
  next
    case (Some u)
    have "(st\<lparr>usage := Some (map (\<lambda>(n, au). (n, resolve_usage now au)) u)\<rparr> \<noteq> st) =
          (map (\<lambda>(n, au). (n, resolve_usage now au)) u \<noteq> u)"
      using Some by (cases st) auto
    then show ?thesis
      using Some by (simp add: resolveStaleMetrics_def resolved_list_changed)
  qed
qed

theorem resolveStaleMetrics_resets_witness:
  "fst (resolveStaleMetrics 100000
          \<lparr>currentAccount = None,
           usage = Some [(''primary'',
             \<lparr>session5h = Some (example_metric 0.9 (Some 99)), weekly7d = None,
              weekly7dSonnet = None, timestamp = None\<rparr>)],
           requestCount = None, lastPrimaryCheck = None, config = None\<rparr>) \<and>
   (\<exists>au'. usage_of (snd (resolveStaleMetrics 100000
          \<lparr>currentAccount = None,
           usage = Some [(''primary'',
             \<lparr>session5h = Some (example_metric 0.9 (Some 99)), weekly7d = None,
              weekly7dSonnet = None, timestamp = None\<rparr>)],
           requestCount = None, lastPrimaryCheck = None, config = None\<rparr>)) ''primary'' = Some au' \<and>
      session5h au' = Some \<lparr>utilization = 0, reset = Some 99, status = ''allowed''\<rparr>)"
proof -
  let ?au = "\<lparr>session5h = Some (example_metric 0.9 (Some 99)), weekly7d = None,
              weekly7dSonnet = None, timestamp = None\<rparr>"
  let ?st = "\<lparr>currentAccount = None, usage = Some [(''primary'', ?au)],
           requestCount = None, lastPrimaryCheck = None, config = None\<rparr>"
  note T = resolveStaleMetrics_resets[of ?st 100000]
  have h: "usage_of ?st ''primary'' = Some ?au \<and> session5h \<in> set metrics \<and>
      session5h ?au = Some (example_metric 0.9 (Some 99)) \<and>
      reset (example_metric 0.9 (Some 99)) = Some 99 \<and> (99::int) \<noteq> 0 \<and> (99::int) * 1000 < 100000 \<and>
      0 \<le> utilization (example_metric 0.9 (Some 99)) \<and> utilization (example_metric 0.9 (Some 99)) \<noteq> 0"
    by (simp add: usage_of_def metrics_def example_metric_def)
  from T[THEN conjunct1, rule_format, OF h]
  have r: "\<exists>au'. usage_of (snd (resolveStaleMetrics 100000 ?st)) ''primary'' = Some au' \<and>
      session5h au' = Some \<lparr>utilization = 0, reset = Some 99, status = ''allowed''\<rparr>"
    by (simp add: example_metric_def)
  then have "snd (resolveStaleMetrics 100000 ?st) \<noteq> ?st"
    by (auto simp: usage_of_def example_metric_def)
  with T[THEN conjunct2] have "fst (resolveStaleMetrics 100000 ?st)" by simp
  with r show ?thesis by blast
qed

text \<open>
  C3. Each metric of the new usage comes from the prior value of that metric and that
  metric's headers alone. The prior value is kept when the three headers are all absent,
  and also when the observation has no usable reset for the metric (absent, not a number,
  or zero) while a prior value exists. Otherwise the present headers are applied and an
  absent one keeps the prior field, or the default without a prior value.
\<close>

theorem updateUsage_per_metric:
  "\<forall>(sel, hdr)\<in>set metric_channels.
     (let prev_m = prior_metric sel prev;
          h = hdr obs;
          new_m = sel (updateUsage parseFloat parseInt stamp prev obs)
      in (hdr_utilization h = None \<and> hdr_reset h = None \<and> hdr_status h = None \<longrightarrow>
            new_m = prev_m) \<and>
         (newReset parseInt h = None \<and> prev_m \<noteq> None \<longrightarrow> new_m = prev_m) \<and>
         (\<not> (hdr_utilization h = None \<and> hdr_reset h = None \<and> hdr_status h = None) \<and>
          (newReset parseInt h \<noteq> None \<or> prev_m = None) \<longrightarrow>
            new_m =
              Some \<lparr>utilization =
                      (case hdr_utilization h of
                         Some t \<Rightarrow> (case parseFloat t of Some x \<Rightarrow> x | None \<Rightarrow> 0)
                       | None \<Rightarrow> (case prev_m of Some p \<Rightarrow> utilization p | None \<Rightarrow> 0)),
                    reset =
                      (case newReset parseInt h of
                         Some n \<Rightarrow> Some n
                       | None \<Rightarrow> (case prev_m of Some p \<Rightarrow> reset p | None \<Rightarrow> None)),
                    status =
                      (case hdr_status h of
                         Some t \<Rightarrow> t
                       | None \<Rightarrow> (case prev_m of Some p \<Rightarrow> status p | None \<Rightarrow> ''unknown''))\<rparr>))"
  by (auto simp: metric_channels_def updateUsage_def updateMetric_def Let_def newReset_def)

theorem updateUsage_per_metric_witness:
  "updateUsage example_parseFloat example_parseInt ''2026'' (Some (example_usage 0.1 0.2 0.3))
     example_observation =
   \<lparr>session5h = Some (example_metric 0.1 None),
    weekly7d = Some \<lparr>utilization = 0.9, reset = Some 1700003600, status = ''rate_limited''\<rparr>,
    weekly7dSonnet = Some (example_metric 0.3 None),
    timestamp = Some ''2026''\<rparr>"
proof -
  let ?prev = "Some (example_usage 0.1 0.2 0.3)"
  let ?new = "updateUsage example_parseFloat example_parseInt ''2026'' ?prev example_observation"
  note T = updateUsage_per_metric[of ?prev example_observation example_parseFloat
      example_parseInt "''2026''"]
  have c1: "(session5h, obs_5h) \<in> set metric_channels"
    and c2: "(weekly7d, obs_7d) \<in> set metric_channels"
    and c3: "(weekly7dSonnet, obs_7d_sonnet) \<in> set metric_channels"
    by (simp_all add: metric_channels_def)
  have s: "session5h ?new = Some (example_metric 0.1 None)"
    using bspec[OF T c1]
    by (simp add: Let_def prior_metric_def example_defs example_observation_def newReset_def)
  have w: "weekly7d ?new = Some \<lparr>utilization = 0.9, reset = Some 1700003600, status = ''rate_limited''\<rparr>"
    using bspec[OF T c2]
    by (simp add: Let_def prior_metric_def example_defs example_observation_def newReset_def
        example_parseFloat_def example_parseInt_def)
  have n: "weekly7dSonnet ?new = Some (example_metric 0.3 None)"
    using bspec[OF T c3]
    by (simp add: Let_def prior_metric_def example_defs example_observation_def no_headers_def)
  have t: "timestamp ?new = Some ''2026''" by (simp add: updateUsage_def)
  from s w n t show ?thesis by (cases ?new) simp
qed

theorem updateMetric_counterexample:
  "hdr_utilization \<lparr>hdr_utilization = Some ''0.9'', hdr_reset = None, hdr_status = None\<rparr> = Some ''0.9'' \<and>
   example_parseFloat ''0.9'' = Some 0.9 \<and>
   updateMetric example_parseFloat example_parseInt (Some (example_metric 0.1 (Some 1700000000)))
     \<lparr>hdr_utilization = Some ''0.9'', hdr_reset = None, hdr_status = None\<rparr>
     = Some (example_metric 0.1 (Some 1700000000)) \<and>
   utilization (example_metric 0.1 (Some 1700000000)) \<noteq> 0.9"
  by (simp add: updateMetric_def newReset_def example_metric_def example_parseFloat_def)

section \<open>Account store: proofs\<close>

lemmas merge_defs =
  mergeMultiAuthSources_def merge_source_def merge_account_def pickPreferredAccount_def
  hasRefreshToken_def getAccountExpiry_def normalizeAccountFields_def truthy_def
  coalesce_access_def coalesce_refresh_def coalesce_expires_def

text \<open>
  C4. Two sources hold a record for the same name: one with a refresh token and expiry
  100, one with an empty refresh token and expiry 200. Merged with the record without a
  refresh token first, the result holds the record with the refresh token; merged in the
  other order, it holds the record without one.
\<close>

theorem merge_depends_on_source_order:
  "mergeMultiAuthSources dateParse
     [\<lparr>src_accounts = Some [example_without_refresh], src_requestCount = None\<rparr>,
      \<lparr>src_accounts = Some [example_with_refresh], src_requestCount = None\<rparr>]
     = Some \<lparr>merged_accounts = [example_with_refresh], merged_requestCount = 0\<rparr> \<and>
   mergeMultiAuthSources dateParse
     [\<lparr>src_accounts = Some [example_with_refresh], src_requestCount = None\<rparr>,
      \<lparr>src_accounts = Some [example_without_refresh], src_requestCount = None\<rparr>]
     = Some \<lparr>merged_accounts = [example_without_refresh], merged_requestCount = 0\<rparr>"
  by (simp add: merge_defs example_with_refresh_def example_without_refresh_def)

lemma normalize_name: "name (normalizeAccountFields dateParse a) = name a"
  by (simp add: normalizeAccountFields_def coalesce_access_def coalesce_refresh_def
      coalesce_expires_def split: option.splits expiry_field.splits)

lemma map_set_keys:
  "map fst (map_set k v m) = (if k \<in> fst ` set m then map fst m else map fst m @ [k])"
  by (induction m) auto

lemma map_set_values: "set (map_set k v m) \<subseteq> insert (k, v) (set m)"
  by (induction m) auto

lemma pick_either:
  "pickPreferredAccount dateParse current candidate = candidate \<or>
   current = Some (pickPreferredAccount dateParse current candidate)"
  by (simp add: pickPreferredAccount_def split: option.splits)

lemma merge_account_keyed:
  assumes "keyed_by_name m"
  shows "keyed_by_name (merge_account dateParse m raw)"
proof (cases "name (normalizeAccountFields dateParse raw) = []")
  case True
  with assms show ?thesis by (simp add: merge_account_def)
next
  case False
  let ?a = "normalizeAccountFields dateParse raw"
  let ?v = "pickPreferredAccount dateParse (map_of m (name ?a)) ?a"
  have nv: "name ?v = name ?a"
  proof (rule disjE[OF pick_either[of dateParse "map_of m (name ?a)" ?a]])
    assume "?v = ?a"
    then show ?thesis by simp
  next
    assume "map_of m (name ?a) = Some ?v"
    then have "(name ?a, ?v) \<in> set m" by (rule map_of_SomeD)
    with assms show ?thesis unfolding keyed_by_name_def by blast
  qed
  have d: "distinct (map fst (map_set (name ?a) ?v m))"
    using assms by (auto simp: map_set_keys keyed_by_name_def)
  have "\<forall>(k, v)\<in>set (map_set (name ?a) ?v m). name v = k \<and> k \<noteq> []"
    using assms nv False map_set_values[of "name ?a" ?v m]
    by (auto simp: keyed_by_name_def)
  with d False show ?thesis
    by (simp add: merge_account_def keyed_by_name_def Let_def)
qed

lemma merge_accounts_keyed:
  "keyed_by_name m \<Longrightarrow> keyed_by_name (foldl (merge_account dateParse) m accs)"
  by (induction accs arbitrary: m) (auto simp: merge_account_keyed)

lemma merge_source_keyed:
  "keyed_by_name (fst acc) \<Longrightarrow> keyed_by_name (fst (merge_source dateParse acc src))"
  by (auto simp: merge_source_def merge_accounts_keyed split: option.splits)

lemma merge_sources_keyed:
  "keyed_by_name (fst acc) \<Longrightarrow> keyed_by_name (fst (foldl (merge_source dateParse) acc srcs))"
  by (induction srcs arbitrary: acc) (auto simp: merge_source_keyed)

lemma merged_names:
  assumes "mergeMultiAuthSources dateParse srcs = Some r"
  shows "distinct (map name (merged_accounts r)) \<and> (\<forall>a\<in>set (merged_accounts r). name a \<noteq> [])"
proof -
  let ?m = "fst (foldl (merge_source dateParse) ([], 0) srcs)"
  have k: "keyed_by_name ?m"
    by (rule merge_sources_keyed) (simp add: keyed_by_name_def)
  have r: "merged_accounts r = map snd ?m"
    using assms by (auto simp: mergeMultiAuthSources_def Let_def split: if_splits)
  have eq: "map name (map snd ?m) = map fst ?m"
    using k by (auto simp: keyed_by_name_def)
  have d: "distinct (map name (merged_accounts r))"
    using k unfolding r eq keyed_by_name_def by blast
  have "\<forall>a\<in>set (merged_accounts r). name a \<noteq> []"
    using k unfolding r keyed_by_name_def by force
  with d show ?thesis by blast
qed

section \<open>Persistence primitive: proofs\<close>

lemma ops_existing:
  "fs p = Some old \<Longrightarrow>
   safeWriteJSON_ops fs p json =
     [MkDir p, CopyFile p (p @ ''.bak''), WriteFile (p @ ''.tmp'') json, Rename (p @ ''.tmp'') p]"
  by (simp add: safeWriteJSON_ops_def)

lemma ops_fresh:
  "fs p = None \<Longrightarrow>
   safeWriteJSON_ops fs p json = [MkDir p, WriteFile (p @ ''.tmp'') json, Rename (p @ ''.tmp'') p]"
  by (simp add: safeWriteJSON_ops_def)

lemma stopped_visible:
  "safeWriteJSON_stopped k part fs p json p = fs p \<or>
   safeWriteJSON_stopped k part fs p json p = Some json"
proof (cases "fs p")
  case None
  consider "k = 0" | "k = 1" | "k = 2" | "k \<ge> 3" by linarith
  then show ?thesis
    by cases
       (auto simp: safeWriteJSON_stopped_def ops_fresh[of fs p, OF None] run_ops_def None
             Let_def numeral_2_eq_2 split: option.splits)
next
  case (Some old)
  consider "k = 0" | "k = 1" | "k = 2" | "k = 3" | "k \<ge> 4" by linarith
  then show ?thesis
    by cases
       (auto simp: safeWriteJSON_stopped_def ops_existing[of fs p, OF Some] run_ops_def Some
             Let_def numeral_2_eq_2 numeral_3_eq_3 split: option.splits)
qed

lemma before_rename_visible: "safeWriteJSON_before_rename fs p json p = fs p"
  by (cases "fs p")
     (auto simp: safeWriteJSON_before_rename_def safeWriteJSON_stopped_def ops_fresh ops_existing
           run_ops_def Let_def numeral_2_eq_2 numeral_3_eq_3)

lemma completed_visible: "safeWriteJSON fs p json p = Some json"
  by (cases "fs p") (auto simp: safeWriteJSON_def ops_fresh ops_existing run_ops_def)

lemma read_ignores_tmp:
  "safeReadJSON parse (fs(p @ ''.tmp'' := leftover)) p d = safeReadJSON parse fs p d"
  by (auto simp: safeReadJSON_def read_parsed_def split: option.splits)

text \<open>
  C7. Whatever operation a run of \<^verbatim>\<open>safeWriteJSON\<close> stops in, and however much of it was
  done, the content at \<open>p\<close> is the old content or the whole new content. A run that stops
  immediately before the rename leaves the content at \<open>p\<close> as it was, and
  \<^verbatim>\<open>safeReadJSON\<close> of \<open>p\<close> reads the same whatever is left at \<open>p.tmp\<close>. A run that
  completes leaves the new content at \<open>p\<close>.
\<close>

theorem safeWriteJSON_atomic:
  "(safeWriteJSON_stopped k part fs p json p = fs p \<or>
    safeWriteJSON_stopped k part fs p json p = Some json) \<and>
   safeWriteJSON_before_rename fs p json p = fs p \<and>
   safeReadJSON parse ((safeWriteJSON_before_rename fs p json)(p @ ''.tmp'' := leftover)) p d =
     safeReadJSON parse (safeWriteJSON_before_rename fs p json) p d \<and>
   safeWriteJSON fs p json p = Some json"
  using stopped_visible[of k part fs p json]
  by (simp add: before_rename_visible read_ignores_tmp completed_visible)

section \<open>Retry loop: proofs\<close>

lemma select_member:
  "fst (selectThresholdAccount now accounts st) = Some a \<Longrightarrow> a \<in> set accounts"
proof (cases accounts)
  case Nil
  assume "fst (selectThresholdAccount now accounts st) = Some a"
  with Nil show ?thesis by (simp add: selectThresholdAccount_def)
next
  case (Cons primary fallbacks)
  assume sel: "fst (selectThresholdAccount now accounts st) = Some a"
  show ?thesis
  proof (cases fallbacks)
    case Nil
    with Cons sel show ?thesis by (simp add: selectThresholdAccount_def)
  next
    case inner: (Cons f0 rest)
    have "pick_best (thresholds_of st) st f0 (f0 # rest) \<in> set (f0 # rest)"
      by (rule pick_best_member)
    then show ?thesis
      using sel Cons inner
      by (auto simp: selectThresholdAccount_def Let_def
               split: if_splits option.splits dest: find_member)
  qed
qed

lemma select_none:
  "fst (selectThresholdAccount now accounts st) = None \<Longrightarrow> accounts = []"
  by (cases accounts; cases "tl accounts")
     (auto simp: selectThresholdAccount_def Let_def split: if_splits option.splits list.splits)

lemma refresh_loop_trace:
  assumes "distinct (map name accounts)"
      and "a \<in> set accounts"
      and "name a \<notin> set attempted"
      and "set attempted = name ` set tried"
      and "set tried \<subseteq> set accounts"
      and "distinct tried"
      and "\<forall>x\<in>set tried. \<exists>code. ensureFreshAccountToken now exchange x = Failed code"
      and "refresh_loop now exchange accounts previousAccount a attempted tried st = (tried', outcome)"
  shows "distinct tried' \<and> set tried' \<subseteq> set accounts \<and> tried' \<noteq> [] \<and>
         hd tried' = hd (tried @ [a]) \<and>
         (\<forall>x\<in>set (butlast tried'). \<exists>code. ensureFreshAccountToken now exchange x = Failed code) \<and>
         (case outcome of
            Inl NoAccountsConfigured \<Rightarrow> False
          | Inl (TokenRefreshFailed n code) \<Rightarrow>
              set tried' = set accounts \<and> n = name (last tried') \<and>
              ensureFreshAccountToken now exchange (last tried') = Failed code
          | Inr (a', st') \<Rightarrow> ensureFreshAccountToken now exchange (last tried') = Fresh a')"
  using assms
proof (induction now exchange accounts previousAccount a attempted tried st
       arbitrary: tried' outcome rule: refresh_loop.induct)
  case (1 now exchange accounts previousAccount a attempted tried st)
  have fresh_a: "a \<notin> set tried"
    using "1.prems"(3,4) by auto
  have base: "distinct (tried @ [a])" "set (tried @ [a]) \<subseteq> set accounts"
    using "1.prems"(2,5,6) fresh_a by auto
  show ?case
  proof (cases "ensureFreshAccountToken now exchange a")
    case (Fresh a')
    with "1.prems"(8) have "tried' = tried @ [a]" "outcome = Inr (a', st)"
      by (simp_all add: refresh_loop.simps[of now exchange accounts previousAccount a])
    with base Fresh "1.prems"(7) show ?thesis by simp
  next
    case (Failed code)
    show ?thesis
    proof (cases "find (\<lambda>candidate. name candidate \<notin> set (name a # attempted)) accounts")
      case None
      with Failed "1.prems"(8) have res: "tried' = tried @ [a]"
        "outcome = Inl (TokenRefreshFailed (name a) code)"
        by (simp_all add: refresh_loop.simps[of now exchange accounts previousAccount a])
      have "set accounts \<subseteq> set (tried @ [a])"
      proof
        fix c assume c: "c \<in> set accounts"
        with None have "name c \<in> set (name a # attempted)"
          by (simp only: find_None_all) blast
        then have "name c \<in> name ` set (tried @ [a])"
          using "1.prems"(4) by auto
        then obtain x where x: "x \<in> set (tried @ [a])" "name x = name c"
          by (metis imageE)
        with base have "x \<in> set accounts" by blast
        with c x "1.prems"(1) have "x = c"
          by (meson distinct_map inj_onD)
        with x show "c \<in> set (tried @ [a])" by simp
      qed
      with base res Failed "1.prems"(7) show ?thesis by auto
    next
      case (Some fallback)
      then have fb: "fallback \<in> set accounts" "name fallback \<notin> set (name a # attempted)"
        by (auto dest: find_member)
      have step: "refresh_loop now exchange accounts previousAccount fallback (name a # attempted)
                    (tried @ [a]) (track_account now accounts previousAccount fallback st)
                  = (tried', outcome)"
        using Failed Some "1.prems"(8)
        by (simp add: refresh_loop.simps[of now exchange accounts previousAccount a])
      have names: "set (name a # attempted) = name ` set (tried @ [a])"
        using "1.prems"(4) by auto
      have failed: "\<forall>x\<in>set (tried @ [a]). \<exists>code. ensureFreshAccountToken now exchange x = Failed code"
        using "1.prems"(7) Failed by auto
      from "1.IH"[OF Failed Some "1.prems"(1) fb(1) fb(2) names base(2) base(1) failed step]
      show ?thesis by (cases tried) auto
    qed
  qed
qed

text \<open>
  C8. The accounts handed to the refresher form a list without repetition that starts with
  the selected account and stays within the account list; every one but the last failed.
  The call fails with a refresh error only when that list covers the whole account list
  and its last account failed too, and the error carries the name of that last account
  and its status code.
\<close>

theorem refresh_retries_every_account:
  assumes names: "distinct (map name accounts)"
  shows "case select_and_refresh now exchange accounts st of
           (tried, outcome) \<Rightarrow>
             distinct tried \<and> set tried \<subseteq> set accounts \<and>
             (tried \<noteq> [] \<longrightarrow> fst (selectThresholdAccount now accounts st) = Some (hd tried)) \<and>
             (\<forall>x\<in>set (butlast tried). \<exists>code. ensureFreshAccountToken now exchange x = Failed code) \<and>
             (case outcome of
                Inl NoAccountsConfigured \<Rightarrow> accounts = []
              | Inl (TokenRefreshFailed n code) \<Rightarrow>
                  tried \<noteq> [] \<and> set tried = set accounts \<and> n = name (last tried) \<and>
                  ensureFreshAccountToken now exchange (last tried) = Failed code
              | Inr (a', st') \<Rightarrow>
                  tried \<noteq> [] \<and> ensureFreshAccountToken now exchange (last tried) = Fresh a')"
proof (cases "fst (selectThresholdAccount now accounts st)")
  case None
  then have "accounts = []" by (rule select_none)
  with None show ?thesis
    by (simp add: select_and_refresh_def selectThresholdAccount_def)
next
  case (Some a)
  obtain st1 where sel: "selectThresholdAccount now accounts st = (Some a, st1)"
    using Some by (cases "selectThresholdAccount now accounts st") auto
  obtain tried outcome where run:
    "refresh_loop now exchange accounts (currentAccount st1) a [] []
       (track_account now accounts (currentAccount st1) a st1) = (tried, outcome)"
    by fastforce
  have mem: "a \<in> set accounts" using Some by (rule select_member)
  from refresh_loop_trace[OF names mem _ _ _ _ _ run]
  have "distinct tried \<and> set tried \<subseteq> set accounts \<and> tried \<noteq> [] \<and>
         hd tried = hd ([] @ [a]) \<and>
         (\<forall>x\<in>set (butlast tried). \<exists>code. ensureFreshAccountToken now exchange x = Failed code) \<and>
         (case outcome of
            Inl NoAccountsConfigured \<Rightarrow> False
          | Inl (TokenRefreshFailed n code) \<Rightarrow>
              set tried = set accounts \<and> n = name (last tried) \<and>
              ensureFreshAccountToken now exchange (last tried) = Failed code
          | Inr (a', st') \<Rightarrow> ensureFreshAccountToken now exchange (last tried) = Fresh a')"
    by simp
  then show ?thesis
    using sel run Some
    by (auto simp: select_and_refresh_def split: sum.splits fetch_error.splits)
qed

lemma example_selection: "selectThresholdAccount 1000
     [example_account ''primary'', example_account ''backup'']
     (example_state (Some ''primary'') 0.1 None)
   = (Some (example_account ''backup''), example_state (Some ''primary'') 0.1 None)"
  by (simp add: example_defs select_defs)

lemma example_backup_fails: "ensureFreshAccountToken 1000 example_exchange (example_account ''backup'') = Failed 401"
  and example_primary_fails: "ensureFreshAccountToken 1000 example_exchange (example_account ''primary'') = Failed 403"
  by (simp_all add: ensureFreshAccountToken_def example_account_def example_exchange_def truthy_def)

lemma example_refresh_run: "select_and_refresh 1000 example_exchange
     [example_account ''primary'', example_account ''backup'']
     (example_state (Some ''primary'') 0.1 None)
   = ([example_account ''backup'', example_account ''primary''],
      Inl (TokenRefreshFailed ''primary'' 403))"
  apply (simp only: select_and_refresh_def example_selection prod.case option.case)
  apply (subst refresh_loop.simps)
  apply (simp only: example_backup_fails refresh_result.case)
  apply (simp add: example_account_def)
  apply (subst refresh_loop.simps)
  apply (simp add: example_primary_fails[unfolded example_account_def])
  done

theorem refresh_retries_every_account_witness:
  "distinct (map name [example_account ''primary'', example_account ''backup'']) \<and>
   select_and_refresh 1000 example_exchange
     [example_account ''primary'', example_account ''backup'']
     (example_state (Some ''primary'') 0.1 None)
   = ([example_account ''backup'', example_account ''primary''],
      Inl (TokenRefreshFailed ''primary'' 403)) \<and>
   set [example_account ''backup'', example_account ''primary''] =
     set [example_account ''primary'', example_account ''backup''] \<and>
   ensureFreshAccountToken 1000 example_exchange (example_account ''primary'') = Failed 403"
proof -
  have d: "distinct (map name [example_account ''primary'', example_account ''backup''])"
    by (simp add: example_account_def)
  from refresh_retries_every_account[OF d, where now = 1000 and exchange = example_exchange
      and st = "example_state (Some ''primary'') 0.1 None"]
  have "set [example_account ''backup'', example_account ''primary''] =
          set [example_account ''primary'', example_account ''backup''] \<and>
        ensureFreshAccountToken 1000 example_exchange (example_account ''primary'') = Failed 403"
    by (simp add: example_refresh_run)
  with d example_refresh_run show ?thesis by blast
qed

end
